theory Spec2Isabelle
  imports Main "HOL-Library.Word"
begin

section \<open>Data model\<close>

text \<open>
  A shallow embedding of unzip-http-go: the library (\<open>RemoteZipFile\<close>, its range
  reads and its search for the End Of Central Directory record) and the command line
  tool (\<open>extractFiles\<close>, \<open>matchPattern\<close>, the loop of \<open>main\<close>).

  Go strings are byte strings: \<open>string\<close> (a list of \<open>char\<close>) models them, and
  \<open>[]byte\<close> is a list of 8-bit words. An \<open>int64\<close> is an \<open>int\<close> between \<open>-2^63\<close>
  and \<open>2^63 - 1\<close>; where the source adds or subtracts two of them and the result can
  leave that range, the wrap-around of Go is written out (\<open>int64\<close> below).
\<close>

type_synonym byte = "8 word"

text \<open>
  The errors of the program are \<open>fmt.Errorf\<close> values and errors handed up from net/http,
  archive/zip and os. One constructor per message of the source; \<open>External\<close> is an
  error of a library, kept by its text.
\<close>

datatype error =
    External string
  | FailedToGetFileInfo error        \<comment> \<open>"failed to get file info: %w"\<close>
  | UnexpectedStatusCode int         \<comment> \<open>"unexpected status code: %d"\<close>
  | NoRangeRequests                  \<comment> \<open>"server does not support range requests"\<close>
  | NoFileSize                       \<comment> \<open>"could not determine file size"\<close>
  | FailedToReadCentralDirectory error  \<comment> \<open>"failed to read central directory: %w"\<close>
  | EOCDNotFound                     \<comment> \<open>"could not find End of Central Directory record"\<close>
  | EOCDTooShort                     \<comment> \<open>"EOCD record too short"\<close>
  | FileNotFound string              \<comment> \<open>"file not found: %s"\<close>
  | FailedToExtract string error     \<comment> \<open>"failed to extract %s: %w"\<close>
  | FailedToCreateDirectory string error  \<comment> \<open>"failed to create directory %s: %w"\<close>
  | FailedToWrite string error       \<comment> \<open>"failed to write %s: %w"\<close>
  | NoFilesMatched string            \<comment> \<open>"no files matched pattern: %s"\<close>

section \<open>Pattern matching (matchPattern)\<close>

text \<open>
  \<open>filepath.ToSlash\<close> and \<open>filepath.FromSlash\<close> depend on the host: they are the
  identity where \<open>filepath.Separator\<close> is a slash, and replace every separator by a
  slash (every slash by a separator) elsewhere. The separator is a parameter \<open>sep\<close>:
  a slash on Unix, a backslash (\<open>CHR 0x5C\<close>) on Windows.
\<close>

definition ToSlash :: "char \<Rightarrow> string \<Rightarrow> string" where
  "ToSlash sep path =
     (if sep = CHR ''/'' then path
      else map (\<lambda>c. if c = sep then CHR ''/'' else c) path)"

definition FromSlash :: "char \<Rightarrow> string \<Rightarrow> string" where
  "FromSlash sep path =
     (if sep = CHR ''/'' then path
      else map (\<lambda>c. if c = CHR ''/'' then sep else c) path)"

text \<open>
  \<open>strings.Split(s, "*")\<close> for a separator of one byte: cut at the first separator,
  go on with the rest, and end with what is left (so the result has one element more
  than \<open>s\<close> has separators).
\<close>

function Split :: "string \<Rightarrow> char \<Rightarrow> string list" where
  "Split s c =
     (case dropWhile (\<lambda>x. x \<noteq> c) s of
        [] \<Rightarrow> [s]
      | _ # rest \<Rightarrow> takeWhile (\<lambda>x. x \<noteq> c) s # Split rest c)"
  by pat_completeness auto
termination
proof (relation "measure (\<lambda>(s, c). length s)")
  show "wf (measure (\<lambda>(s, c). length s))" by simp
next
  fix s :: string and c x rest
  assume "dropWhile (\<lambda>x. x \<noteq> c) s = x # rest"
  then have "length s = length (takeWhile (\<lambda>x. x \<noteq> c) s) + Suc (length rest)"
    by (metis length_append length_Cons takeWhile_dropWhile_id)
  then show "((rest, c), (s, c)) \<in> measure (\<lambda>(s, c). length s)" by simp
qed

declare Split.simps [simp del]

definition HasPrefix :: "string \<Rightarrow> string \<Rightarrow> bool" where
  "HasPrefix s p = (length p \<le> length s \<and> take (length p) s = p)"

definition HasSuffix :: "string \<Rightarrow> string \<Rightarrow> bool" where
  "HasSuffix s p = (length p \<le> length s \<and> drop (length s - length p) s = p)"

definition matchPattern :: "char \<Rightarrow> string \<Rightarrow> string \<Rightarrow> bool" where
  "matchPattern sep pattern0 name0 =
     (let pattern = ToSlash sep pattern0;
          name = ToSlash sep name0
      in if pattern = name then True
         else if CHR ''*'' \<in> set pattern then
           (let parts = Split pattern (CHR ''*'')
            in if length parts = 2
               then HasPrefix name (parts ! 0) \<and> HasSuffix name (parts ! 1)
               else False)
         else False)"


section \<open>The remote side\<close>

text \<open>
  The result of an \<open>int64\<close> addition or subtraction whose exact value is \<open>x\<close>: Go wraps
  around, keeping the value modulo \<open>2^64\<close> in the range of \<open>int64\<close>.
\<close>

definition int64 :: "int \<Rightarrow> int" where
  "int64 x = (x + 2 ^ 63) mod 2 ^ 64 - 2 ^ 63"

text \<open>
  A request is the HEAD of \<open>NewRemoteZipFile\<close> or the GET of \<open>getRange\<close>, whose
  header is \<open>Range: bytes=lo-hi\<close>. Of a response the program reads the status
  code, the header \<open>Accept-Ranges\<close> (empty when absent), \<open>ContentLength\<close> (-1 when
  unknown) and the body, modelled by what \<open>io.ReadAll(resp.Body)\<close> returns. When
  that read fails, Go returns the bytes read so far with the error; every caller drops
  them, so the model keeps the error alone.
\<close>

datatype request = Head string | Get string int int

record response =
  StatusCode :: int
  AcceptRanges :: string
  ContentLength :: int
  Body :: "error + byte list"

text \<open>
  The world outside the program. \<open>NewRequest url\<close> is the error of \<open>http.NewRequest\<close>
  for that URL, if any. \<open>Do k req\<close> is what one call of the client (\<open>httpClient.Do\<close>,
  \<open>httpClient.Head\<close>) returns for \<open>req\<close> when the program has called the client \<open>k\<close>
  times before: the answers may change from one call to the next. What net/http does
  inside one call (redirects, a request sent again on a fresh connection when a reused
  one was closed) is the library's and is not modelled. The state threaded through the
  program is the list of the requests it has handed to the client so far, one for each
  call. The answers do not depend on the connection pool: a client whose idle
  connections were closed opens a new connection for its next request.
\<close>

record world =
  NewRequest :: "string \<Rightarrow> error option"
  Do :: "nat \<Rightarrow> request \<Rightarrow> error + response"

section \<open>The archive handle (RemoteZipFile)\<close>

text \<open>
  An \<open>io.ReaderAt\<close>, as a function: \<open>ReadAt(p, off)\<close> takes the buffer, the offset and
  the requests made so far, and returns \<open>n\<close>, \<open>err\<close>, the buffer after the call and the
  requests made after it.
\<close>

type_synonym readerAt =
  "byte list \<Rightarrow> int \<Rightarrow> request list \<Rightarrow> (nat \<times> error option \<times> byte list) \<times> request list"

text \<open>
  A \<open>*zip.File\<close> is archive/zip's: the model keeps what the program uses of it. Its
  \<open>Name\<close>; whether \<open>FileInfo().IsDir()\<close> holds; and \<open>Open()\<close>, which reads the archive
  through the reader the \<open>zip.Reader\<close> was made with, the \<open>remoteReaderAt\<close> of the
  handle: \<open>fOpen\<close> takes that reader and the requests made so far, and returns an error
  or a \<open>ReadCloser\<close>, with the requests made after its reads. A \<open>ReadCloser\<close> is
  modelled by what \<open>io.ReadAll\<close> does with it: more reads through the same reader, and
  the decompressed bytes or an error.
\<close>

datatype ReadCloser =
  ReadCloser (ReadAll: "request list \<Rightarrow> (error + byte list) \<times> request list")

record zipFile =
  Name :: string
  IsDir :: bool
  fOpen :: "readerAt \<Rightarrow> request list \<Rightarrow> (error + ReadCloser) \<times> request list"

text \<open>
  The struct \<open>RemoteZipFile\<close>. \<open>size64\<close> is the field \<open>size\<close> (an \<open>int64\<close>).
  \<open>NewRemoteZipFile\<close> is the only constructor and always sets \<open>httpClient\<close> to a
  client with an \<open>*http.Transport\<close>, so the client is modelled by the one thing \<open>Close\<close>
  changes: \<open>idleConns\<close>, the idle connections its transport keeps pooled. How many
  connections a request leaves idle is the transport's business and is not modelled.
  The field \<open>reader\<close> is written once and never read; it is left out.
\<close>

record RemoteZipFile =
  URL :: string
  idleConns :: nat
  size64 :: int
  files :: "zipFile list"

definition Close :: "RemoteZipFile \<Rightarrow> RemoteZipFile" where
  "Close rzf = rzf\<lparr>idleConns := 0\<rparr>"

definition ListNames :: "RemoteZipFile \<Rightarrow> string list" where
  "ListNames rzf = map Name (files rzf)"

definition Files :: "RemoteZipFile \<Rightarrow> zipFile list" where
  "Files rzf = files rzf"

section \<open>Range reads (getRange, ReadAt)\<close>

text \<open>
  \<open>start\<close> and \<open>end\<close> are \<open>int64\<close> values; the header is printed from \<open>start\<close> and
  from \<open>end-1\<close>, an \<open>int64\<close> subtraction.
\<close>

definition getRange ::
  "world \<Rightarrow> RemoteZipFile \<Rightarrow> int \<Rightarrow> int \<Rightarrow> request list \<Rightarrow> (error + byte list) \<times> request list"
where
  "getRange w rzf start end sent =
     (case NewRequest w (URL rzf) of
        Some err \<Rightarrow> (Inl err, sent)
      | None \<Rightarrow>
          (let req = Get (URL rzf) start (int64 (end - 1)) in
           case Do w (length sent) req of
             Inl err \<Rightarrow> (Inl err, sent @ [req])
           | Inr resp \<Rightarrow>
               if StatusCode resp \<noteq> 206 \<and> StatusCode resp \<noteq> 200
               then (Inl (UnexpectedStatusCode (StatusCode resp)), sent @ [req])
               else (Body resp, sent @ [req])))"

text \<open>Go's \<open>copy(dst, src)\<close>: the first \<open>min (len dst) (len src)\<close> bytes of \<open>dst\<close> are overwritten.\<close>

definition copy :: "byte list \<Rightarrow> byte list \<Rightarrow> byte list" where
  "copy dst src = take (length dst) src @ drop (length src) dst"

text \<open>
  \<open>ReadAt\<close> of the \<open>remoteReaderAt\<close> of a handle. It returns \<open>n\<close> and \<open>err\<close>; the
  buffer \<open>p\<close> it wrote to is returned with them. The end of the range is
  \<open>off+int64(len(p))\<close>, an \<open>int64\<close> addition.
\<close>

definition ReadAt :: "world \<Rightarrow> RemoteZipFile \<Rightarrow> readerAt" where
  "ReadAt w rzf p off sent =
     (case getRange w rzf off (int64 (off + int (length p))) sent of
        (Inl err, sent') \<Rightarrow> ((0, Some err, p), sent')
      | (Inr data, sent') \<Rightarrow> ((length data, None, copy p data), sent'))"

section \<open>Opening and extracting an entry (Open, Extract)\<close>

text \<open>
  \<open>Open\<close> finds the first entry of that name and calls its \<open>Open()\<close>, which reads
  through the \<open>remoteReaderAt\<close> of this handle. \<open>Extract\<close> then reads the whole stream.
\<close>

definition Open ::
  "world \<Rightarrow> RemoteZipFile \<Rightarrow> string \<Rightarrow> request list \<Rightarrow> (error + ReadCloser) \<times> request list"
where
  "Open w rzf name sent =
     (case find (\<lambda>f. Name f = name) (files rzf) of
        Some f \<Rightarrow> fOpen f (ReadAt w rzf) sent
      | None \<Rightarrow> (Inl (FileNotFound name), sent))"

definition Extract ::
  "world \<Rightarrow> RemoteZipFile \<Rightarrow> string \<Rightarrow> request list \<Rightarrow> (error + byte list) \<times> request list"
where
  "Extract w rzf name sent =
     (case Open w rzf name sent of
        (Inl err, sent1) \<Rightarrow> (Inl err, sent1)
      | (Inr rc, sent1) \<Rightarrow> ReadAll rc sent1)"

section \<open>Reading the central directory (readCentralDirectory)\<close>

definition eocdSignature :: "byte list" where
  "eocdSignature = [0x50, 0x4b, 0x05, 0x06]"

text \<open>
  The loop \<open>for i := len(endData) - 22; i >= 0; i--\<close>, from its start value \<open>i\<close>:
  the first position, going down, where the four bytes \<open>endData[i:i+4]\<close> are the
  signature, or -1. The slice is in range, since \<open>i + 22 \<le> len(endData)\<close> throughout.
\<close>

function scanEOCD :: "byte list \<Rightarrow> int \<Rightarrow> int" where
  "scanEOCD endData i =
     (if i \<ge> 0 then
        (if take 4 (drop (nat i) endData) = eocdSignature then i
         else scanEOCD endData (i - 1))
      else -1)"
  by pat_completeness auto
termination
  by (relation "measure (\<lambda>(endData, i). nat (i + 1))") auto

declare scanEOCD.simps [simp del]

text \<open>
  The local variable \<open>searchSize\<close> of \<open>readCentralDirectory\<close>, as a function of
  \<open>rzf.size\<close>: 65536, lowered to the size of the file when that is smaller. The
  difference \<open>rzf.size-searchSize\<close> is 0 or \<open>rzf.size - 65536\<close> with \<open>rzf.size\<close> at
  least 65536: it cannot overflow.
\<close>

definition searchSize :: "int \<Rightarrow> int" where
  "searchSize sz = (if 65536 > sz then sz else 65536)"

text \<open>
  \<open>zip.NewReader\<close> is archive/zip's: it is a parameter, given the \<open>ReadAt\<close> of the
  \<open>remoteReaderAt\<close>, the size and the requests made so far, and returning the files (or
  its error) and the requests made after its reads.
\<close>

type_synonym zipNewReader =
  "readerAt \<Rightarrow> int \<Rightarrow> request list \<Rightarrow> (error + zipFile list) \<times> request list"

definition readCentralDirectory ::
  "world \<Rightarrow> zipNewReader \<Rightarrow> RemoteZipFile \<Rightarrow> request list
     \<Rightarrow> (error + RemoteZipFile) \<times> request list"
where
  "readCentralDirectory w NewReader rzf sent =
     (case getRange w rzf (size64 rzf - searchSize (size64 rzf)) (size64 rzf) sent of
        (Inl err, sent1) \<Rightarrow> (Inl err, sent1)
      | (Inr endData, sent1) \<Rightarrow>
          (let eocdPos = scanEOCD endData (int (length endData) - 22) in
           if eocdPos < 0 then (Inl EOCDNotFound, sent1)
           else
             (let eocd = drop (nat eocdPos) endData in
              if length eocd < 22 then (Inl EOCDTooShort, sent1)
              else
                (case NewReader (ReadAt w rzf) (size64 rzf) sent1 of
                   (Inl err, sent2) \<Rightarrow> (Inl err, sent2)
                 | (Inr fs, sent2) \<Rightarrow> (Inr (rzf\<lparr>files := fs\<rparr>), sent2)))))"

definition NewRemoteZipFile ::
  "world \<Rightarrow> zipNewReader \<Rightarrow> string \<Rightarrow> request list
     \<Rightarrow> (error + RemoteZipFile) \<times> request list"
where
  "NewRemoteZipFile w NewReader url sent =
     (case NewRequest w url of
        Some err \<Rightarrow> (Inl (FailedToGetFileInfo err), sent)
      | None \<Rightarrow>
          (let sent1 = sent @ [Head url] in
           case Do w (length sent) (Head url) of
             Inl err \<Rightarrow> (Inl (FailedToGetFileInfo err), sent1)
           | Inr resp \<Rightarrow>
               if StatusCode resp \<noteq> 200
               then (Inl (UnexpectedStatusCode (StatusCode resp)), sent1)
               else if AcceptRanges resp \<noteq> ''bytes''
               then (Inl NoRangeRequests, sent1)
               else
                 (let rzf = \<lparr>URL = url, idleConns = 0,
                              size64 = ContentLength resp, files = []\<rparr>
                  in if size64 rzf \<le> 0 then (Inl NoFileSize, sent1)
                     else
                       (case readCentralDirectory w NewReader rzf sent1 of
                          (Inl err, sent2) \<Rightarrow> (Inl (FailedToReadCentralDirectory err), sent2)
                        | (Inr rzf', sent2) \<Rightarrow> (Inr rzf', sent2)))))"

section \<open>The command line tool (extractFiles, the loop of main)\<close>

text \<open>
  What the tool leaves behind: the bytes written to standard output, the lines printed
  to standard error, the directories made and the files written, each in order.
\<close>

datatype message =
    Extracting string                \<comment> \<open>"Extracting %s...\n"\<close>
  | ErrorExtracting string error     \<comment> \<open>"Error extracting %s: %v\n"\<close>

record sink =
  stdout :: "byte list"
  stderr :: "message list"
  madeDirs :: "string list"
  written :: "(string \<times> byte list) list"

text \<open>
  The host: \<open>filepath.Separator\<close>, and the functions of path/filepath and os that
  \<open>extractFiles\<close> calls, as parameters (\<open>MkdirAll\<close> and \<open>WriteFile\<close> by the error they
  return, if any).
\<close>

record host =
  Separator :: char
  Base :: "string \<Rightarrow> string"
  Dir :: "string \<Rightarrow> string"
  MkdirAll :: "string \<Rightarrow> error option"
  WriteFile :: "string \<Rightarrow> byte list \<Rightarrow> error option"

text \<open>
  The loop of \<open>extractFiles\<close> over \<open>rzf.Files()\<close>, from the files still to visit and
  the value of \<open>matched\<close>: \<open>Inl\<close> the error the function returns from inside the loop,
  \<open>Inr\<close> the value of \<open>matched\<close> when the loop ends; with them the sink and the
  requests made. The error of \<open>os.Stdout.Write\<close> is ignored by the source.
\<close>

fun extractLoop ::
  "host \<Rightarrow> world \<Rightarrow> RemoteZipFile \<Rightarrow> string \<Rightarrow> bool \<Rightarrow> bool \<Rightarrow> zipFile list \<Rightarrow> bool
     \<Rightarrow> sink \<Rightarrow> request list \<Rightarrow> (error + bool) \<times> sink \<times> request list"
where
  "extractLoop h w rzf pattern recreateStructure writeStdout [] matched out sent =
     (Inr matched, out, sent)"
| "extractLoop h w rzf pattern recreateStructure writeStdout (f # fs) matched out sent =
     (let normalizedName = FromSlash (Separator h) (Name f) in
      if matchPattern (Separator h) pattern (Name f)
         \<or> matchPattern (Separator h) pattern normalizedName
      then
        (if IsDir f
         then extractLoop h w rzf pattern recreateStructure writeStdout fs True out sent
         else if writeStdout then
          (case Extract w rzf (Name f) sent of
             (Inl err, sent1) \<Rightarrow> (Inl (FailedToExtract (Name f) err), out, sent1)
           | (Inr data, sent1) \<Rightarrow>
               extractLoop h w rzf pattern recreateStructure writeStdout fs True
                 (out\<lparr>stdout := stdout out @ data\<rparr>) sent1)
        else
          (let outputPath =
                 (if \<not> recreateStructure then Base h normalizedName else normalizedName);
               dir = Dir h outputPath;
               mk = (dir \<noteq> ''.'' \<and> dir \<noteq> [])
           in case (if mk then MkdirAll h dir else None) of
                Some err \<Rightarrow> (Inl (FailedToCreateDirectory dir err), out, sent)
              | None \<Rightarrow>
                  (let out1 = out\<lparr>madeDirs := madeDirs out @ (if mk then [dir] else []),
                                   stderr := stderr out @ [Extracting (Name f)]\<rparr>
                   in case Extract w rzf (Name f) sent of
                        (Inl err, sent1) \<Rightarrow> (Inl (FailedToExtract (Name f) err), out1, sent1)
                      | (Inr data, sent1) \<Rightarrow>
                          (case WriteFile h outputPath data of
                             Some err \<Rightarrow> (Inl (FailedToWrite outputPath err), out1, sent1)
                           | None \<Rightarrow>
                               extractLoop h w rzf pattern recreateStructure writeStdout fs True
                                 (out1\<lparr>written := written out1 @ [(outputPath, data)]\<rparr>)
                                 sent1))))
      else extractLoop h w rzf pattern recreateStructure writeStdout fs matched out sent)"

definition extractFiles ::
  "host \<Rightarrow> world \<Rightarrow> RemoteZipFile \<Rightarrow> string \<Rightarrow> bool \<Rightarrow> bool \<Rightarrow> sink \<Rightarrow> request list
     \<Rightarrow> error option \<times> sink \<times> request list"
where
  "extractFiles h w rzf pattern recreateStructure writeStdout out sent =
     (case extractLoop h w rzf pattern recreateStructure writeStdout (Files rzf) False out sent of
        (Inl err, out', sent') \<Rightarrow> (Some err, out', sent')
      | (Inr matched, out', sent') \<Rightarrow>
          (if \<not> matched then Some (NoFilesMatched pattern) else None, out', sent'))"

text \<open>
  The last loop of \<open>main\<close>: one call of \<open>extractFiles\<close> for each pattern of the command
  line, in the order of the arguments; an error is printed and the loop goes on.
\<close>

fun mainExtract ::
  "host \<Rightarrow> world \<Rightarrow> RemoteZipFile \<Rightarrow> bool \<Rightarrow> bool \<Rightarrow> string list \<Rightarrow> sink \<Rightarrow> request list
     \<Rightarrow> sink \<times> request list"
where
  "mainExtract h w rzf recreateStructure writeStdout [] out sent = (out, sent)"
| "mainExtract h w rzf recreateStructure writeStdout (pattern # filenames) out sent =
     (case extractFiles h w rzf pattern recreateStructure writeStdout out sent of
        (Some err, out', sent') \<Rightarrow>
          mainExtract h w rzf recreateStructure writeStdout filenames
            (out'\<lparr>stderr := stderr out' @ [ErrorExtracting pattern err]\<rparr>) sent'
      | (None, out', sent') \<Rightarrow>
          mainExtract h w rzf recreateStructure writeStdout filenames out' sent')"

section \<open>Models of the remote side\<close>

text \<open>
  Two servers, for stating what the program does against them. They are models of the
  environment, not of the program. \<open>rangeServer archive\<close> honours byte ranges: it
  answers \<open>bytes=lo-hi\<close> with status 206 and the bytes \<open>lo\<close> to \<open>hi\<close> of the
  archive (cut at its end), and a range it cannot satisfy with status 416.
  \<open>wholeFileServer archive\<close> ignores the \<open>Range\<close> header, as HTTP allows: it answers
  every GET with status 200 and the whole archive.
\<close>

definition rangeServer :: "byte list \<Rightarrow> nat \<Rightarrow> request \<Rightarrow> error + response" where
  "rangeServer archive k req =
     (case req of
        Head url \<Rightarrow>
          Inr \<lparr>StatusCode = 200, AcceptRanges = ''bytes'',
               ContentLength = int (length archive), Body = Inr []\<rparr>
      | Get url lo hi \<Rightarrow>
          if 0 \<le> lo \<and> lo \<le> hi \<and> lo < int (length archive)
          then
            (let data = take (nat (hi - lo + 1)) (drop (nat lo) archive)
             in Inr \<lparr>StatusCode = 206, AcceptRanges = ''bytes'',
                     ContentLength = int (length data), Body = Inr data\<rparr>)
          else Inr \<lparr>StatusCode = 416, AcceptRanges = ''bytes'',
                    ContentLength = 0, Body = Inr []\<rparr>)"

definition wholeFileServer :: "byte list \<Rightarrow> nat \<Rightarrow> request \<Rightarrow> error + response" where
  "wholeFileServer archive k req =
     (case req of
        Head url \<Rightarrow>
          Inr \<lparr>StatusCode = 200, AcceptRanges = ''bytes'',
               ContentLength = int (length archive), Body = Inr []\<rparr>
      | Get url lo hi \<Rightarrow>
          Inr \<lparr>StatusCode = 200, AcceptRanges = ''bytes'',
               ContentLength = int (length archive), Body = Inr archive\<rparr>)"

section \<open>The specification's words, for comparison with the code\<close>

text \<open>
  The specification's rule for a candidate End Of Central Directory record at position
  \<open>i\<close> of the tail window: the signature stands there, the fixed 22 bytes of the record
  fit, and the comment length the record declares (its last two bytes, little endian)
  is the number of bytes that remain in the window after the record.
\<close>

definition spec_commentLength :: "byte list \<Rightarrow> nat \<Rightarrow> nat" where
  "spec_commentLength endData i = unat (endData ! (i + 20)) + 256 * unat (endData ! (i + 21))"

definition spec_consistent :: "byte list \<Rightarrow> nat \<Rightarrow> bool" where
  "spec_consistent endData i =
     (i + 22 \<le> length endData \<and> take 4 (drop i endData) = eocdSignature \<and>
      spec_commentLength endData i = length endData - i - 22)"

text \<open>
  The errors the specification calls \<open>RangeUnsupported\<close>: those of a probe that shows
  no byte-range support or no content length.
\<close>

definition spec_RangeUnsupported :: "error \<Rightarrow> bool" where
  "spec_RangeUnsupported err = (err = NoRangeRequests \<or> err = NoFileSize)"

section \<open>Concrete inputs\<close>

text \<open>
  Inputs for the examples below. \<open>stdoutHost\<close> is a host whose separator is a slash;
  with \<open>-o\<close> the tool calls none of its other functions. \<open>storedAt name off n\<close> is an
  entry that is not a directory and is stored without compression in the \<open>n\<close> bytes
  from offset \<open>off\<close> of the archive: its \<open>Open\<close> succeeds, and reading it asks the
  remote reader for those bytes and returns what the reader delivered, or its error.
  \<open>exampleArchive\<close> is the handle of the specification's scenario, with entries
  \<open>a.txt\<close>, \<open>dir/b.txt\<close> and \<open>c.bin\<close> in this order, holding the bytes \<open>A\<close>, \<open>B\<close>
  and \<open>C\<close>, which are the three bytes \<open>exampleWorld\<close> serves. \<open>starArchive\<close> has one
  entry, named \<open>a**b\<close>, holding the byte \<open>X\<close> that \<open>starWorld\<close> serves.
\<close>

definition stdoutHost :: host where
  "stdoutHost = \<lparr>Separator = CHR ''/'', Base = (\<lambda>p. p), Dir = (\<lambda>p. ''.''),
                  MkdirAll = (\<lambda>d. None), WriteFile = (\<lambda>p d. None)\<rparr>"

definition emptySink :: sink where
  "emptySink = \<lparr>stdout = [], stderr = [], madeDirs = [], written = []\<rparr>"

definition storedAt :: "string \<Rightarrow> int \<Rightarrow> nat \<Rightarrow> zipFile" where
  "storedAt name off n =
     \<lparr>Name = name, IsDir = False,
      fOpen = (\<lambda>ra sent.
        (Inr (ReadCloser (\<lambda>s.
           case ra (replicate n 0) off s of
             ((k, Some err, p), s') \<Rightarrow> (Inl err, s')
           | ((k, None, p), s') \<Rightarrow> (Inr (take k p), s'))), sent))\<rparr>"

definition exampleArchive :: RemoteZipFile where
  "exampleArchive =
     \<lparr>URL = ''http://example.com/archive.zip'', idleConns = 1, size64 = 3,
      files = [storedAt ''a.txt'' 0 1, storedAt ''dir/b.txt'' 1 1, storedAt ''c.bin'' 2 1]\<rparr>"

definition exampleWorld :: world where
  "exampleWorld = \<lparr>NewRequest = (\<lambda>url. None), Do = rangeServer [0x41, 0x42, 0x43]\<rparr>"

definition starArchive :: RemoteZipFile where
  "starArchive =
     \<lparr>URL = ''http://example.com/star.zip'', idleConns = 1, size64 = 1,
      files = [storedAt ''a**b'' 0 1]\<rparr>"

definition starWorld :: world where
  "starWorld = \<lparr>NewRequest = (\<lambda>url. None), Do = rangeServer [0x58]\<rparr>"

text \<open>
  Worlds: \<open>shortWorld\<close> answers every request with status 206 and only two bytes;
  \<open>flakyWorld\<close> fails the first call of a session with a connection reset and then
  serves a three-byte archive with ranges; \<open>downWorld\<close> fails every call;
  \<open>probeWorld resp\<close> answers every request with \<open>resp\<close>.
\<close>

definition shortWorld :: world where
  "shortWorld = \<lparr>NewRequest = (\<lambda>url. None),
      Do = (\<lambda>k req. Inr \<lparr>StatusCode = 206, AcceptRanges = ''bytes'', ContentLength = 2,
                            Body = Inr [0x50, 0x4b]\<rparr>)\<rparr>"

definition flakyWorld :: world where
  "flakyWorld = \<lparr>NewRequest = (\<lambda>url. None),
      Do = (\<lambda>k req. if k = 0 then Inl (External ''connection reset by peer'')
                      else rangeServer [1, 2, 3] k req)\<rparr>"

definition downWorld :: world where
  "downWorld = \<lparr>NewRequest = (\<lambda>url. None), Do = (\<lambda>k req. Inl (External ''timeout''))\<rparr>"

definition probeWorld :: "response \<Rightarrow> world" where
  "probeWorld resp = \<lparr>NewRequest = (\<lambda>url. None), Do = (\<lambda>k req. Inr resp)\<rparr>"

text \<open>
  \<open>emptyZip\<close> is the archive with no entries: one End Of Central Directory record of
  22 bytes. \<open>craftedWindow\<close> is a tail window of 44 bytes: a record at position 0 that
  declares a comment of 22 bytes, and that comment, which starts with the signature and
  ends with the bytes 5 and 0, so that read as a record at position 22 it declares a
  comment of 5 bytes where none remain. \<open>longCommentZip\<close> is the archive with no
  entries and the longest comment the format allows: a record that declares a comment
  of 65535 bytes, followed by 65535 zero bytes, 65557 bytes in all; \<open>longCommentWorld\<close>
  serves it with ranges. \<open>noFiles\<close> is a
  \<open>zip.NewReader\<close> that reads nothing and finds no entries; \<open>handle url sz\<close> is the
  handle \<open>NewRemoteZipFile\<close> passes to \<open>readCentralDirectory\<close>.
\<close>

definition emptyZip :: "byte list" where
  "emptyZip = [0x50, 0x4b, 0x05, 0x06, 0, 0, 0, 0, 0, 0, 0, 0, 0, 0, 0, 0, 0, 0, 0, 0, 0, 0]"

definition craftedWindow :: "byte list" where
  "craftedWindow =
     [0x50, 0x4b, 0x05, 0x06, 0, 0, 0, 0, 0, 0, 0, 0, 0, 0, 0, 0, 0, 0, 0, 0, 22, 0] @
     [0x50, 0x4b, 0x05, 0x06, 0, 0, 0, 0, 0, 0, 0, 0, 0, 0, 0, 0, 0, 0, 0, 0, 5, 0]"

definition longCommentZip :: "byte list" where
  "longCommentZip =
     [0x50, 0x4b, 0x05, 0x06, 0, 0, 0, 0, 0, 0, 0, 0, 0, 0, 0, 0, 0, 0, 0, 0, 0xff, 0xff]
     @ replicate 65535 0"

definition longCommentWorld :: world where
  "longCommentWorld = \<lparr>NewRequest = (\<lambda>url. None), Do = rangeServer longCommentZip\<rparr>"

definition noFiles :: zipNewReader where
  "noFiles ra sz sent = (Inr [], sent)"

definition handle :: "string \<Rightarrow> int \<Rightarrow> RemoteZipFile" where
  "handle url sz = \<lparr>URL = url, idleConns = 0, size64 = sz, files = []\<rparr>"

section \<open>Facts about pattern matching\<close>

lemma Split_no_sep: "c \<notin> set s \<Longrightarrow> Split s c = [s]"
proof -
  assume "c \<notin> set s"
  then have d: "dropWhile (\<lambda>x. x \<noteq> c) s = []" by auto
  show ?thesis by (subst Split.simps) (simp only: d list.case)
qed

lemma Split_cut:
  assumes "c \<notin> set pre"
  shows "Split (pre @ c # rest) c = pre # Split rest c"
proof -
  from assms have d: "dropWhile (\<lambda>x. x \<noteq> c) (pre @ c # rest) = c # rest"
    by (auto simp: dropWhile_append3)
  from assms have t: "takeWhile (\<lambda>x. x \<noteq> c) (pre @ c # rest) = pre"
    by (auto simp: takeWhile_tail)
  show ?thesis by (subst Split.simps) (simp only: d t list.case)
qed

lemma length_Split: "length (Split s c) = Suc (count_list s c)"
proof (induction s c rule: Split.induct)
  case (1 s c)
  show ?case
  proof (cases "dropWhile (\<lambda>x. x \<noteq> c) s")
    case Nil
    then have "c \<notin> set s" by (metis (mono_tags, lifting) dropWhile_eq_Nil_conv)
    then show ?thesis by (simp add: Split_no_sep count_list_0_iff)
  next
    case (Cons x rest)
    then have x: "x = c" by (metis (mono_tags, lifting) hd_dropWhile list.sel(1) list.distinct(1))
    define pre where "pre = takeWhile (\<lambda>x. x \<noteq> c) s"
    have s: "s = pre @ c # rest"
      unfolding pre_def using Cons x by (metis takeWhile_dropWhile_id)
    have pre: "c \<notin> set pre"
      unfolding pre_def by (auto dest: set_takeWhileD)
    then have "count_list pre c = 0" by (simp add: count_list_0_iff)
    moreover have "length (Split rest c) = Suc (count_list rest c)"
      using "1.IH" Cons by simp
    ultimately show ?thesis
      by (simp add: s Split_cut [OF pre])
  qed
qed

lemma HasPrefix_iff: "HasPrefix s p \<longleftrightarrow> (\<exists>t. s = p @ t)"
proof
  assume "HasPrefix s p"
  then have "s = p @ drop (length p) s"
    by (metis HasPrefix_def append_take_drop_id)
  then show "\<exists>t. s = p @ t" ..
next
  assume "\<exists>t. s = p @ t"
  then show "HasPrefix s p" by (auto simp: HasPrefix_def)
qed

lemma HasSuffix_iff: "HasSuffix s p \<longleftrightarrow> (\<exists>t. s = t @ p)"
proof
  assume "HasSuffix s p"
  then have "s = take (length s - length p) s @ p"
    by (metis HasSuffix_def append_take_drop_id)
  then show "\<exists>t. s = t @ p" ..
next
  assume "\<exists>t. s = t @ p"
  then show "HasSuffix s p" by (auto simp: HasSuffix_def)
qed

lemma matchPattern_one:
  assumes p: "ToSlash sep pattern = pre @ CHR ''*'' # suf"
    and pre: "CHR ''*'' \<notin> set pre" and suf: "CHR ''*'' \<notin> set suf"
  shows "matchPattern sep pattern name =
     ((\<exists>t. ToSlash sep name = pre @ t) \<and> (\<exists>t. ToSlash sep name = t @ suf))"
proof -
  have sp: "Split (ToSlash sep pattern) (CHR ''*'') = [pre, suf]"
    by (simp add: p Split_cut [OF pre] Split_no_sep [OF suf])
  have star: "CHR ''*'' \<in> set (ToSlash sep pattern)" by (simp add: p)
  show ?thesis
  proof (cases "ToSlash sep pattern = ToSlash sep name")
    case True
    then have "matchPattern sep pattern name" by (simp add: matchPattern_def)
    moreover have "\<exists>t. ToSlash sep name = pre @ t" using True p by metis
    moreover have "\<exists>t. ToSlash sep name = t @ suf" using True p
      by (metis append.assoc append_Cons append_Nil)
    ultimately show ?thesis by simp
  next
    case False
    then show ?thesis
      using star by (simp add: matchPattern_def Let_def sp HasPrefix_iff HasSuffix_iff)
  qed
qed

lemma matchPattern_none:
  assumes "CHR ''*'' \<notin> set (ToSlash sep pattern)"
  shows "matchPattern sep pattern name = (ToSlash sep pattern = ToSlash sep name)"
  using assms by (simp add: matchPattern_def Let_def)

lemma matchPattern_many:
  assumes "1 < count_list (ToSlash sep pattern) (CHR ''*'')"
  shows "matchPattern sep pattern name = (ToSlash sep pattern = ToSlash sep name)"
  using assms by (simp add: matchPattern_def Let_def length_Split)

lemma ToSlash_FromSlash: "ToSlash sep (FromSlash sep name) = ToSlash sep name"
  by (auto simp: ToSlash_def FromSlash_def)

lemma matchPattern_normalized:
  "matchPattern sep pattern (FromSlash sep name) = matchPattern sep pattern name"
  by (simp add: matchPattern_def ToSlash_FromSlash)

section \<open>Claims on pattern matching\<close>

text \<open>
  C4, as the code has it. \<open>matchPattern\<close> compares the pattern and the name after
  \<open>filepath.ToSlash\<close> on both, which is the identity on a host whose separator is a
  slash. On the normalised strings: a pattern with no \<open>*\<close> matches exactly the name
  equal to it; a pattern with exactly one \<open>*\<close>, prefix \<open>pre\<close> before it and suffix
  \<open>suf\<close> after it, matches exactly the names that start with \<open>pre\<close> and end with \<open>suf\<close>,
  the two allowed to overlap.
\<close>

theorem matchPattern_wildcard:
  "(sep = CHR ''/'' \<longrightarrow> ToSlash sep pattern = pattern \<and> ToSlash sep name = name) \<and>
   (CHR ''*'' \<notin> set (ToSlash sep pattern) \<longrightarrow>
      matchPattern sep pattern name = (ToSlash sep pattern = ToSlash sep name)) \<and>
   (ToSlash sep pattern = pre @ CHR ''*'' # suf \<and>
        CHR ''*'' \<notin> set pre \<and> CHR ''*'' \<notin> set suf \<longrightarrow>
      matchPattern sep pattern name =
        ((\<exists>t. ToSlash sep name = pre @ t) \<and> (\<exists>t. ToSlash sep name = t @ suf)))"
  using matchPattern_none [of sep pattern name] matchPattern_one [of sep pattern pre suf name]
  by (simp add: ToSlash_def)

text \<open>
  The examples of the specification, on a host whose separator is a slash: \<open>*.txt\<close>
  matches \<open>a.txt\<close> and \<open>dir/b.txt\<close> and not \<open>a.txt.bak\<close>; \<open>a.txt\<close> matches \<open>a.txt\<close>
  and not \<open>dir/a.txt\<close>; \<open>*\<close> matches the empty name.
\<close>

theorem matchPattern_wildcard_witness:
  "matchPattern (CHR ''/'') ''*.txt'' ''a.txt'' \<and>
   matchPattern (CHR ''/'') ''*.txt'' ''dir/b.txt'' \<and>
   \<not> matchPattern (CHR ''/'') ''*.txt'' ''a.txt.bak'' \<and>
   matchPattern (CHR ''/'') ''a.txt'' ''a.txt'' \<and>
   \<not> matchPattern (CHR ''/'') ''a.txt'' ''dir/a.txt'' \<and>
   matchPattern (CHR ''/'') ''*'' []"
proof -
  have a: "matchPattern (CHR ''/'') ''*.txt'' ''a.txt''"
    using matchPattern_wildcard [of "CHR ''/''" "''*.txt''" "''a.txt''" "[]" "''.txt''"]
    by (simp add: ToSlash_def)
  have b: "matchPattern (CHR ''/'') ''*.txt'' ''dir/b.txt''"
    using matchPattern_wildcard [of "CHR ''/''" "''*.txt''" "''dir/b.txt''" "[]" "''.txt''"]
    by (simp add: ToSlash_def)
  have c: "\<not> matchPattern (CHR ''/'') ''*.txt'' ''a.txt.bak''"
    using matchPattern_wildcard [of "CHR ''/''" "''*.txt''" "''a.txt.bak''" "[]" "''.txt''"]
    by (simp add: ToSlash_def append_eq_Cons_conv)
  have d: "matchPattern (CHR ''/'') ''a.txt'' ''a.txt''"
    using matchPattern_wildcard [of "CHR ''/''" "''a.txt''" "''a.txt''"]
    by (simp add: ToSlash_def)
  have e: "\<not> matchPattern (CHR ''/'') ''a.txt'' ''dir/a.txt''"
    using matchPattern_wildcard [of "CHR ''/''" "''a.txt''" "''dir/a.txt''"]
    by (simp add: ToSlash_def)
  have f: "matchPattern (CHR ''/'') ''*'' []"
    using matchPattern_wildcard [of "CHR ''/''" "''*''" "[]" "[]" "[]"]
    by (simp add: ToSlash_def)
  from a b c d e f show ?thesis by blast
qed

text \<open>
  C4 as stated fails on a host whose separator is a backslash (\<open>CHR 0x5C\<close>): the
  pattern made of \<open>dir\<close>, a backslash and \<open>b.txt\<close> has no wildcard and matches the
  entry \<open>dir/b.txt\<close>, a name that is not equal to it.
\<close>

theorem matchPattern_separator_counterexample:
  "matchPattern (CHR 0x5C) (''dir'' @ [CHR 0x5C] @ ''b.txt'') ''dir/b.txt'' \<and>
   CHR ''*'' \<notin> set (''dir'' @ [CHR 0x5C] @ ''b.txt'') \<and>
   ''dir'' @ [CHR 0x5C] @ ''b.txt'' \<noteq> ''dir/b.txt''"
  by (simp add: matchPattern_def ToSlash_def)

lemmas example_defs =
  extractFiles_def Files_def starArchive_def exampleArchive_def storedAt_def starWorld_def
  exampleWorld_def stdoutHost_def emptySink_def matchPattern_def ToSlash_def FromSlash_def
  Extract_def Open_def ReadAt_def getRange_def rangeServer_def int64_def copy_def Let_def
  Split.simps HasPrefix_def HasSuffix_def

lemma extractLoop_no_match:
  "\<forall>f\<in>set fs. \<not> matchPattern (Separator h) pattern (Name f) \<Longrightarrow>
   extractLoop h w rzf pattern rs ws fs matched out sent = (Inr matched, out, sent)"
  by (induction fs) (simp_all add: matchPattern_normalized)

text \<open>
  C5, as the code has it. A pattern with more than one \<open>*\<close> is not rejected:
  \<open>matchPattern\<close> treats it as a literal, matching exactly the names equal to it
  (after \<open>ToSlash\<close>). When no entry has that name, \<open>extractFiles\<close> returns the error
  of every unmatched pattern, "no files matched pattern", writes nothing and reads
  nothing.
\<close>

theorem several_wildcards_literal:
  assumes "1 < count_list (ToSlash (Separator h) pattern) (CHR ''*'')"
  shows "matchPattern (Separator h) pattern name =
           (ToSlash (Separator h) pattern = ToSlash (Separator h) name) \<and>
         ((\<forall>f\<in>set (Files rzf). ToSlash (Separator h) (Name f) \<noteq> ToSlash (Separator h) pattern) \<longrightarrow>
            extractFiles h w rzf pattern rs ws out sent = (Some (NoFilesMatched pattern), out, sent))"
proof -
  have m: "\<And>name. matchPattern (Separator h) pattern name =
           (ToSlash (Separator h) pattern = ToSlash (Separator h) name)"
    by (rule matchPattern_many [OF assms])
  have "extractFiles h w rzf pattern rs ws out sent = (Some (NoFilesMatched pattern), out, sent)"
    if "\<forall>f\<in>set (Files rzf). ToSlash (Separator h) (Name f) \<noteq> ToSlash (Separator h) pattern"
  proof -
    from that have "\<forall>f\<in>set (Files rzf). \<not> matchPattern (Separator h) pattern (Name f)"
      by (auto simp: m)
    then show ?thesis
      by (simp add: extractFiles_def extractLoop_no_match)
  qed
  with m show ?thesis by blast
qed

theorem several_wildcards_literal_witness:
  "1 < count_list ''*.t*'' (CHR ''*'') \<and>
   \<not> matchPattern (CHR ''/'') ''*.t*'' ''a.txt'' \<and>
   extractFiles stdoutHost exampleWorld exampleArchive ''*.t*'' False True emptySink [] =
     (Some (NoFilesMatched ''*.t*''), emptySink, [])"
  using several_wildcards_literal [of stdoutHost "''*.t*''" "''a.txt''" exampleArchive
      exampleWorld False True emptySink "[]"]
  by (simp add: stdoutHost_def ToSlash_def exampleArchive_def Files_def storedAt_def)

text \<open>
  C5 as stated fails. The pattern \<open>a**b\<close> has two wildcards and is not rejected: on an
  archive with an entry of that very name the selection succeeds and the entry's bytes
  are read and written. And where nothing has the pattern's name, as for \<open>*.t*\<close> on the
  example archive, the error is the "no files matched pattern" that the plain name
  \<open>missing\<close> gets too: the pattern silently matches nothing.
\<close>

theorem several_wildcards_counterexample:
  "1 < count_list ''a**b'' (CHR ''*'') \<and>
   extractFiles stdoutHost starWorld starArchive ''a**b'' False True emptySink [] =
     (None, emptySink\<lparr>stdout := [0x58]\<rparr>, [Get ''http://example.com/star.zip'' 0 0]) \<and>
   extractFiles stdoutHost exampleWorld exampleArchive ''*.t*'' False True emptySink [] =
     (Some (NoFilesMatched ''*.t*''), emptySink, []) \<and>
   extractFiles stdoutHost exampleWorld exampleArchive ''missing'' False True emptySink [] =
     (Some (NoFilesMatched ''missing''), emptySink, [])"
  by (simp add: example_defs)

section \<open>Claims on the order of the output\<close>

text \<open>
  With \<open>-o\<close>, the loop of \<open>extractFiles\<close> over a list of entries is the loop over its
  first part followed, unless that returned an error, by the loop over the rest; and it
  only appends to standard output. So within one pattern the entries are written in
  the order of \<open>rzf.Files()\<close>, the order of the archive.
\<close>

lemma extractLoop_append:
  "extractLoop h w rzf pattern rs True (fs @ gs) m out sent =
     (case extractLoop h w rzf pattern rs True fs m out sent of
        (Inl err, out1, sent1) \<Rightarrow> (Inl err, out1, sent1)
      | (Inr m1, out1, sent1) \<Rightarrow> extractLoop h w rzf pattern rs True gs m1 out1 sent1)"
proof (induction fs arbitrary: m out sent)
  case Nil
  then show ?case by simp
next
  case (Cons f fs)
  show ?case
  proof (cases "matchPattern (Separator h) pattern (Name f)")
    case False
    then show ?thesis using Cons [of m out sent] by (simp add: matchPattern_normalized)
  next
    case True
    show ?thesis
    proof (cases "IsDir f")
      case True
      then show ?thesis
        using Cons [of True out sent] \<open>matchPattern (Separator h) pattern (Name f)\<close> by simp
    next
      case False
      obtain r s1 where e: "Extract w rzf (Name f) sent = (r, s1)"
        by (cases "Extract w rzf (Name f) sent")
      show ?thesis
      proof (cases r)
        case (Inl err)
        with True False e show ?thesis by simp
      next
        case (Inr d)
        from Cons [of True "out\<lparr>stdout := stdout out @ d\<rparr>" s1]
        show ?thesis using True False e Inr by simp
      qed
    qed
  qed
qed

lemma extractLoop_stdout_grows:
  "\<exists>bs. stdout (fst (snd (extractLoop h w rzf pattern rs True fs m out sent))) = stdout out @ bs"
proof (induction fs arbitrary: m out sent)
  case Nil
  then show ?case by simp
next
  case (Cons f fs)
  show ?case
  proof (cases "matchPattern (Separator h) pattern (Name f)")
    case False
    then show ?thesis using Cons [of m out sent] by (simp add: matchPattern_normalized)
  next
    case True
    show ?thesis
    proof (cases "IsDir f")
      case True
      then show ?thesis
        using Cons [of True out sent] \<open>matchPattern (Separator h) pattern (Name f)\<close> by simp
    next
      case False
      obtain r s1 where e: "Extract w rzf (Name f) sent = (r, s1)"
        by (cases "Extract w rzf (Name f) sent")
      show ?thesis
      proof (cases r)
        case (Inl err)
        with True False e show ?thesis by simp
      next
        case (Inr d)
        from Cons [of True "out\<lparr>stdout := stdout out @ d\<rparr>" s1]
        show ?thesis using True False e Inr by auto
      qed
    qed
  qed
qed

lemma extractFiles_stdout_grows:
  "\<exists>bs. stdout (fst (snd (extractFiles h w rzf pattern rs True out sent))) = stdout out @ bs"
proof -
  obtain r o1 s1 where e:
    "extractLoop h w rzf pattern rs True (Files rzf) False out sent = (r, o1, s1)"
    by (cases "extractLoop h w rzf pattern rs True (Files rzf) False out sent") auto
  from extractLoop_stdout_grows [of h w rzf pattern rs "Files rzf" False out sent] e
  have "\<exists>bs. stdout o1 = stdout out @ bs" by auto
  with e show ?thesis by (cases r) (simp_all add: extractFiles_def)
qed

text \<open>
  Across patterns the output follows the command line: the loop of \<open>main\<close> over a
  list of patterns is the loop over its first part followed by the loop over the rest,
  and it only appends to standard output. What is written for an earlier argument
  stands before what is written for a later one.
\<close>

lemma mainExtract_append:
  "mainExtract h w rzf rs ws (ps @ qs) out sent =
     (case mainExtract h w rzf rs ws ps out sent of
        (out1, sent1) \<Rightarrow> mainExtract h w rzf rs ws qs out1 sent1)"
proof (induction ps arbitrary: out sent)
  case Nil
  then show ?case by simp
next
  case (Cons p ps)
  obtain r o1 s1 where e: "extractFiles h w rzf p rs ws out sent = (r, o1, s1)"
    by (cases "extractFiles h w rzf p rs ws out sent") auto
  show ?case
    by (cases r) (simp_all add: e Cons)
qed

lemma mainExtract_stdout_grows:
  "\<exists>bs. stdout (fst (mainExtract h w rzf rs True ps out sent)) = stdout out @ bs"
proof (induction ps arbitrary: out sent)
  case Nil
  then show ?case by simp
next
  case (Cons p ps)
  obtain r o1 s1 where e: "extractFiles h w rzf p rs True out sent = (r, o1, s1)"
    by (cases "extractFiles h w rzf p rs True out sent") auto
  from extractFiles_stdout_grows [of h w rzf p rs out sent] e
  obtain bs where bs: "stdout o1 = stdout out @ bs" by auto
  show ?case
  proof (cases r)
    case None
    from Cons [of o1 s1] obtain cs where
      "stdout (fst (mainExtract h w rzf rs True ps o1 s1)) = stdout o1 @ cs" by auto
    with e None bs show ?thesis by simp
  next
    case (Some err)
    from Cons [of "o1\<lparr>stderr := stderr o1 @ [ErrorExtracting p err]\<rparr>" s1] obtain cs where
      "stdout (fst (mainExtract h w rzf rs True ps
          (o1\<lparr>stderr := stderr o1 @ [ErrorExtracting p err]\<rparr>) s1)) = stdout o1 @ cs" by auto
    with e Some bs show ?thesis by simp
  qed
qed

text \<open>
  C3 at concrete inputs. For the one pattern \<open>*.txt\<close> the output is the bytes of
  \<open>a.txt\<close> and then of \<open>dir/b.txt\<close>, without \<open>c.bin\<close>, as the scenario says. For the
  patterns \<open>c.bin\<close> and \<open>a.txt\<close> the output is \<open>C\<close> and then \<open>A\<close>: the order of the
  arguments, where the archive has \<open>a.txt\<close> first. For \<open>*.txt\<close> and \<open>a.txt\<close> the
  bytes of \<open>a.txt\<close> are written twice.
\<close>

theorem mainExtract_argument_order:
  "stdout (fst (mainExtract stdoutHost exampleWorld exampleArchive False True
                  [''*.txt''] emptySink []))
     = [0x41, 0x42] \<and>
   stdout (fst (mainExtract stdoutHost exampleWorld exampleArchive False True
                  [''c.bin'', ''a.txt''] emptySink []))
     = [0x43, 0x41] \<and>
   stdout (fst (mainExtract stdoutHost exampleWorld exampleArchive False True
                  [''*.txt'', ''a.txt''] emptySink []))
     = [0x41, 0x42, 0x41]"
  by (simp add: example_defs)

section \<open>Claims on the handle and on range reads\<close>

text \<open>
  \<open>Close\<close> changes nothing that a range read uses: the reads of a handle after
  \<open>Close\<close> are the reads of the handle before it.
\<close>

lemma getRange_Close: "getRange w (Close rzf) start end sent = getRange w rzf start end sent"
  by (simp add: getRange_def Close_def split: option.splits)

lemma ReadAt_Close: "ReadAt w (Close rzf) = ReadAt w rzf"
  by (intro ext) (simp add: ReadAt_def getRange_Close)

text \<open>
  C9, as the code has it. \<open>Close\<close> only drops the idle connections of the pool: the
  handle has no state that records it, and there is no error for a use after it. After
  \<open>Close\<close>, \<open>getRange\<close>, \<open>ReadAt\<close>, \<open>Open\<close>, \<open>Extract\<close>, \<open>Files\<close> and \<open>List\<close>
  return what they return before it, with the same requests made through the client:
  \<open>Extract\<close> of a name that no entry has fails with "file not found", and \<open>Open\<close> of
  a name that an entry has calls that entry's \<open>Open()\<close>, which reads the archive through
  the reader of the closed handle. \<open>Close\<close> is idempotent.
\<close>

theorem Close_keeps_extraction:
  "getRange w (Close rzf) start end sent = getRange w rzf start end sent \<and>
   ReadAt w (Close rzf) p off sent = ReadAt w rzf p off sent \<and>
   Open w (Close rzf) name sent = Open w rzf name sent \<and>
   Extract w (Close rzf) name sent = Extract w rzf name sent \<and>
   Files (Close rzf) = Files rzf \<and>
   ListNames (Close rzf) = ListNames rzf \<and>
   Close (Close rzf) = Close rzf \<and>
   (find (\<lambda>f. Name f = name) (files rzf) = None \<longrightarrow>
      Extract w (Close rzf) name sent = (Inl (FileNotFound name), sent)) \<and>
   (find (\<lambda>f. Name f = name) (files rzf) = Some f \<longrightarrow>
      Open w (Close rzf) name sent = fOpen f (ReadAt w (Close rzf)) sent)"
proof -
  have f: "files (Close rzf) = files rzf" by (simp add: Close_def)
  have o: "Open w (Close rzf) name sent = Open w rzf name sent"
    by (simp add: Open_def f ReadAt_Close split: option.splits)
  then have e: "Extract w (Close rzf) name sent = Extract w rzf name sent"
    by (simp add: Extract_def)
  have n: "find (\<lambda>f. Name f = name) (files rzf) = None \<longrightarrow>
      Extract w (Close rzf) name sent = (Inl (FileNotFound name), sent)"
    by (simp add: Extract_def Open_def f)
  have s: "find (\<lambda>f. Name f = name) (files rzf) = Some f \<longrightarrow>
      Open w (Close rzf) name sent = fOpen f (ReadAt w (Close rzf)) sent"
    by (simp add: Open_def f)
  have m: "Files (Close rzf) = Files rzf \<and> ListNames (Close rzf) = ListNames rzf \<and>
      Close (Close rzf) = Close rzf"
    by (simp add: Close_def Files_def ListNames_def)
  from o e n s m show ?thesis
    by (simp only: getRange_Close ReadAt_Close)
qed

theorem Close_keeps_extraction_witness:
  "Extract exampleWorld (Close exampleArchive) ''missing'' [] = (Inl (FileNotFound ''missing''), []) \<and>
   Open exampleWorld (Close exampleArchive) ''c.bin'' [] =
     fOpen (storedAt ''c.bin'' 2 1) (ReadAt exampleWorld (Close exampleArchive)) []"
proof -
  have n: "find (\<lambda>f. Name f = ''missing'') (files exampleArchive) = None"
    by (simp add: exampleArchive_def storedAt_def)
  have c: "find (\<lambda>f. Name f = ''c.bin'') (files exampleArchive) = Some (storedAt ''c.bin'' 2 1)"
    by (simp add: exampleArchive_def storedAt_def)
  have a: "Extract exampleWorld (Close exampleArchive) ''missing'' [] =
      (Inl (FileNotFound ''missing''), [])"
    using Close_keeps_extraction [of exampleWorld exampleArchive 0 0 "[]" "[]" 0 "''missing''"
        "storedAt ''c.bin'' 2 1"] n
    by blast
  have b: "Open exampleWorld (Close exampleArchive) ''c.bin'' [] =
     fOpen (storedAt ''c.bin'' 2 1) (ReadAt exampleWorld (Close exampleArchive)) []"
    using Close_keeps_extraction [of exampleWorld exampleArchive 0 0 "[]" "[]" 0 "''c.bin''"
        "storedAt ''c.bin'' 2 1"] c
    by blast
  from a b show ?thesis by blast
qed

text \<open>
  C9 as stated fails: on the example archive, after \<open>Close\<close>, \<open>Extract\<close> of \<open>a.txt\<close>
  requests the byte of the entry from the server and returns it, and \<open>Open\<close> returns a
  reader and no error.
\<close>

theorem extract_after_Close_counterexample:
  "Extract exampleWorld (Close exampleArchive) ''a.txt'' [] =
     (Inr [0x41], [Get ''http://example.com/archive.zip'' 0 0]) \<and>
   \<not> isl (fst (Open exampleWorld (Close exampleArchive) ''a.txt'' []))"
  by (simp add: example_defs Close_def)

lemma int64_id: "- (2 ^ 63) \<le> x \<Longrightarrow> x < 2 ^ 63 \<Longrightarrow> int64 x = x"
  by (simp add: int64_def)

text \<open>
  C10: \<open>ReadAt\<close> returns an error exactly when its call of \<open>getRange\<close> fails; and when
  \<open>getRange\<close> succeeds with fewer bytes than the buffer holds, \<open>ReadAt\<close> returns their
  number, which is less than \<open>len(p)\<close>, and a nil error, having overwritten only the
  start of the buffer. The call of \<open>getRange\<close> is the one the source makes, for every
  offset: its end is \<open>off+int64(len(p))\<close> with the wrap-around of \<open>int64\<close>.
\<close>

theorem ReadAt_error_iff:
  "(fst (snd (fst (ReadAt w rzf p off sent))) \<noteq> None \<longleftrightarrow>
      (\<exists>err. fst (getRange w rzf off (int64 (off + int (length p))) sent) = Inl err)) \<and>
   (fst (getRange w rzf off (int64 (off + int (length p))) sent) = Inr data \<and>
    length data < length p \<longrightarrow>
      ReadAt w rzf p off sent =
        ((length data, None, data @ drop (length data) p),
         snd (getRange w rzf off (int64 (off + int (length p))) sent)))"
  by (cases "getRange w rzf off (int64 (off + int (length p))) sent")
     (auto simp: ReadAt_def copy_def split: sum.splits)

text \<open>
  A short read at offset 0, and one at the largest offset, where the end of the range
  wraps around to a negative number.
\<close>

theorem ReadAt_error_iff_witness:
  "fst (getRange shortWorld exampleArchive 0 (int64 (0 + int (length [0, 0, 0, 0 :: byte]))) []) =
     Inr [0x50, 0x4b] \<and>
   ReadAt shortWorld exampleArchive [0, 0, 0, 0] 0 [] =
     ((2, None, [0x50, 0x4b, 0, 0]), [Get ''http://example.com/archive.zip'' 0 3]) \<and>
   ReadAt shortWorld exampleArchive [0, 0, 0, 0] 9223372036854775807 [] =
     ((2, None, [0x50, 0x4b, 0, 0]),
      [Get ''http://example.com/archive.zip'' 9223372036854775807 (- 9223372036854775806)])"
proof -
  have g: "getRange shortWorld exampleArchive 0 (int64 (0 + int (length [0, 0, 0, 0 :: byte]))) [] =
     (Inr [0x50, 0x4b], [Get ''http://example.com/archive.zip'' 0 3])"
    by (simp add: getRange_def shortWorld_def exampleArchive_def int64_def)
  have h: "getRange shortWorld exampleArchive 9223372036854775807
             (int64 (9223372036854775807 + int (length [0, 0, 0, 0 :: byte]))) [] =
     (Inr [0x50, 0x4b],
      [Get ''http://example.com/archive.zip'' 9223372036854775807 (- 9223372036854775806)])"
    by (simp add: getRange_def shortWorld_def exampleArchive_def int64_def)
  have a: "ReadAt shortWorld exampleArchive [0, 0, 0, 0] 0 [] =
     ((2, None, [0x50, 0x4b, 0, 0]), [Get ''http://example.com/archive.zip'' 0 3])"
    using ReadAt_error_iff [of shortWorld exampleArchive "[0, 0, 0, 0]" 0 "[]" "[0x50, 0x4b]"] g
    by simp
  have b: "ReadAt shortWorld exampleArchive [0, 0, 0, 0] 9223372036854775807 [] =
     ((2, None, [0x50, 0x4b, 0, 0]),
      [Get ''http://example.com/archive.zip'' 9223372036854775807 (- 9223372036854775806)])"
    using ReadAt_error_iff [of shortWorld exampleArchive "[0, 0, 0, 0]" 9223372036854775807 "[]"
        "[0x50, 0x4b]"] h
    by simp
  from g a b show ?thesis by simp
qed

text \<open>
  C7, as the code has it. \<open>getRange\<close> has no retry and no backoff of its own: it calls
  the client at most once (exactly once when the request can be built), and an error
  that this one call returns, or a status other than 206 and 200, is returned to the
  caller at once. What net/http does inside the one call is not \<open>getRange\<close>'s.
\<close>

theorem getRange_single_attempt:
  "length (snd (getRange w rzf start end sent)) \<le> length sent + 1 \<and>
   (NewRequest w (URL rzf) = None \<longrightarrow>
      snd (getRange w rzf start end sent) = sent @ [Get (URL rzf) start (int64 (end - 1))]) \<and>
   (NewRequest w (URL rzf) = None \<and>
    Do w (length sent) (Get (URL rzf) start (int64 (end - 1))) = Inl err \<longrightarrow>
      fst (getRange w rzf start end sent) = Inl err) \<and>
   (NewRequest w (URL rzf) = None \<and>
    Do w (length sent) (Get (URL rzf) start (int64 (end - 1))) = Inr resp \<and>
    StatusCode resp \<noteq> 206 \<and> StatusCode resp \<noteq> 200 \<longrightarrow>
      fst (getRange w rzf start end sent) = Inl (UnexpectedStatusCode (StatusCode resp)))"
  by (auto simp: getRange_def Let_def split: option.splits sum.splits)

theorem getRange_single_attempt_witness:
  "getRange flakyWorld exampleArchive 0 2 [] =
     (Inl (External ''connection reset by peer''), [Get ''http://example.com/archive.zip'' 0 1]) \<and>
   getRange
     (probeWorld \<lparr>StatusCode = 503, AcceptRanges = [], ContentLength = 0, Body = Inr []\<rparr>)
     exampleArchive 0 2 [] =
     (Inl (UnexpectedStatusCode 503), [Get ''http://example.com/archive.zip'' 0 1])"
proof -
  have i: "int64 1 = 1" by (simp add: int64_def)
  have a: "getRange flakyWorld exampleArchive 0 2 [] =
     (Inl (External ''connection reset by peer''), [Get ''http://example.com/archive.zip'' 0 1])"
    using getRange_single_attempt [of flakyWorld exampleArchive 0 2 "[]"
        "External ''connection reset by peer''"]
    by (simp add: flakyWorld_def exampleArchive_def prod_eq_iff i)
  have b: "getRange
     (probeWorld \<lparr>StatusCode = 503, AcceptRanges = [], ContentLength = 0, Body = Inr []\<rparr>)
     exampleArchive 0 2 [] =
     (Inl (UnexpectedStatusCode 503), [Get ''http://example.com/archive.zip'' 0 1])"
    using getRange_single_attempt [of
        "probeWorld \<lparr>StatusCode = 503, AcceptRanges = [], ContentLength = 0, Body = Inr []\<rparr>"
        exampleArchive 0 2 "[]" _
        "\<lparr>StatusCode = 503, AcceptRanges = [], ContentLength = 0, Body = Inr []\<rparr>"]
    by (simp add: probeWorld_def exampleArchive_def prod_eq_iff i)
  from a b show ?thesis by simp
qed

text \<open>
  C7 as stated fails: when the first call of the client returns a connection reset and
  a second call would return the bytes, \<open>getRange\<close> returns the error after the one
  call; the same call of \<open>getRange\<close> made again succeeds.
\<close>

theorem getRange_no_retry_counterexample:
  "getRange flakyWorld exampleArchive 0 2 [] =
     (Inl (External ''connection reset by peer''), [Get ''http://example.com/archive.zip'' 0 1]) \<and>
   fst (getRange flakyWorld exampleArchive 0 2 [Get ''http://example.com/archive.zip'' 0 1]) =
     Inr [1, 2]"
  by (simp add: getRange_def flakyWorld_def exampleArchive_def rangeServer_def Let_def int64_def)

text \<open>
  C2, as the code has it. For a valid range \<open>[s, e)\<close> of an archive whose size is an
  \<open>int64\<close>, against a server that honours ranges \<open>getRange\<close> returns exactly the
  \<open>e - s\<close> bytes of the archive from \<open>s\<close>. The function itself checks the status
  only: whatever body comes with status 206 or with status 200 is returned as it is,
  whatever its length.
\<close>

theorem getRange_range_server:
  assumes "0 \<le> s" and "s < e" and "e \<le> int (length archive)"
    and "int (length archive) < 2 ^ 63"
    and "NewRequest w (URL rzf) = None"
  shows "(Do w = rangeServer archive \<longrightarrow>
            fst (getRange w rzf s e sent) = Inr (take (nat (e - s)) (drop (nat s) archive)) \<and>
            length (take (nat (e - s)) (drop (nat s) archive)) = nat (e - s)) \<and>
         (Do w (length sent) (Get (URL rzf) s (e - 1)) = Inr resp \<and>
          (StatusCode resp = 206 \<or> StatusCode resp = 200) \<longrightarrow>
            fst (getRange w rzf s e sent) = Body resp)"
proof -
  from assms have "int64 (e - 1) = e - 1" by (intro int64_id) auto
  with assms show ?thesis
    by (auto simp: getRange_def rangeServer_def Let_def)
qed

theorem getRange_range_server_witness:
  "fst (getRange \<lparr>NewRequest = (\<lambda>url. None), Do = rangeServer [1, 2, 3, 4, 5]\<rparr>
          exampleArchive 1 3 []) = Inr [2, 3] \<and>
   fst (getRange
          (probeWorld \<lparr>StatusCode = 200, AcceptRanges = ''bytes'', ContentLength = 5,
                        Body = Inr [1, 2, 3, 4, 5]\<rparr>)
          exampleArchive 1 3 []) = Inr [1, 2, 3, 4, 5]"
proof -
  have a: "fst (getRange \<lparr>NewRequest = (\<lambda>url. None), Do = rangeServer [1, 2, 3, 4, 5]\<rparr>
          exampleArchive 1 3 []) = Inr [2, 3]"
    using getRange_range_server [of 1 3 "[1, 2, 3, 4, 5]"
        "\<lparr>NewRequest = (\<lambda>url. None), Do = rangeServer [1, 2, 3, 4, 5]\<rparr>" exampleArchive "[]"]
    by simp
  have b: "fst (getRange
          (probeWorld \<lparr>StatusCode = 200, AcceptRanges = ''bytes'', ContentLength = 5,
                        Body = Inr [1, 2, 3, 4, 5]\<rparr>)
          exampleArchive 1 3 []) = Inr [1, 2, 3, 4, 5]"
    using getRange_range_server [of 1 3 "[1, 2, 3, 4, 5]"
        "probeWorld \<lparr>StatusCode = 200, AcceptRanges = ''bytes'', ContentLength = 5,
                      Body = Inr [1, 2, 3, 4, 5]\<rparr>"
        exampleArchive "[]"
        "\<lparr>StatusCode = 200, AcceptRanges = ''bytes'', ContentLength = 5,
          Body = Inr [1, 2, 3, 4, 5]\<rparr>"]
    by (simp add: probeWorld_def)
  from a b show ?thesis by simp
qed

text \<open>
  C2 as stated fails: a server that answers the range \<open>[1, 3)\<close> of a five-byte archive
  with status 200 and the whole archive makes \<open>getRange\<close> succeed with five bytes, not
  two.
\<close>

theorem getRange_full_content_counterexample:
  "fst (getRange \<lparr>NewRequest = (\<lambda>url. None), Do = wholeFileServer [1, 2, 3, 4, 5]\<rparr>
          exampleArchive 1 3 []) = Inr [1, 2, 3, 4, 5] \<and>
   length [1, 2, 3, 4, 5 :: byte] \<noteq> nat (3 - 1)"
  by (simp add: getRange_def wholeFileServer_def)

section \<open>Claims on the central directory\<close>

lemma scanEOCD_range: "scanEOCD d i = -1 \<or> (0 \<le> scanEOCD d i \<and> scanEOCD d i \<le> i)"
proof (induction d i rule: scanEOCD.induct)
  case (1 endData i)
  show ?case
  proof (cases "i \<ge> 0")
    case False
    then have "scanEOCD endData i = -1" by (subst scanEOCD.simps) simp
    then show ?thesis by simp
  next
    case True
    show ?thesis
    proof (cases "take 4 (drop (nat i) endData) = eocdSignature")
      case True
      with \<open>i \<ge> 0\<close> have "scanEOCD endData i = i" by (subst scanEOCD.simps) simp
      with \<open>i \<ge> 0\<close> show ?thesis by simp
    next
      case False
      with \<open>i \<ge> 0\<close> have e: "scanEOCD endData i = scanEOCD endData (i - 1)"
        by (subst scanEOCD.simps) simp
      from "1.IH" [OF \<open>i \<ge> 0\<close> False] show ?thesis unfolding e by auto
    qed
  qed
qed

lemma scanEOCD_found:
  "0 \<le> scanEOCD d i \<Longrightarrow> take 4 (drop (nat (scanEOCD d i)) d) = eocdSignature"
proof (induction d i rule: scanEOCD.induct)
  case (1 endData i)
  show ?case
  proof (cases "i \<ge> 0")
    case False
    then have "scanEOCD endData i = -1" by (subst scanEOCD.simps) simp
    with "1.prems" show ?thesis by simp
  next
    case True
    show ?thesis
    proof (cases "take 4 (drop (nat i) endData) = eocdSignature")
      case True
      with \<open>i \<ge> 0\<close> have "scanEOCD endData i = i" by (subst scanEOCD.simps) simp
      with True show ?thesis by simp
    next
      case False
      with \<open>i \<ge> 0\<close> have e: "scanEOCD endData i = scanEOCD endData (i - 1)"
        by (subst scanEOCD.simps) simp
      from "1.IH" [OF \<open>i \<ge> 0\<close> False] "1.prems" show ?thesis unfolding e by simp
    qed
  qed
qed

lemma scanEOCD_rightmost:
  "scanEOCD d i < j \<Longrightarrow> j \<le> i \<Longrightarrow> 0 \<le> j \<Longrightarrow> take 4 (drop (nat j) d) \<noteq> eocdSignature"
proof (induction d i rule: scanEOCD.induct)
  case (1 endData i)
  from "1.prems" have i: "i \<ge> 0" by simp
  show ?case
  proof (cases "take 4 (drop (nat i) endData) = eocdSignature")
    case True
    with i have "scanEOCD endData i = i" by (subst scanEOCD.simps) simp
    with "1.prems" show ?thesis by simp
  next
    case False
    with i have e: "scanEOCD endData i = scanEOCD endData (i - 1)"
      by (subst scanEOCD.simps) simp
    show ?thesis
    proof (cases "j = i")
      case True
      with False show ?thesis by simp
    next
      case False
      with "1.prems" have "j \<le> i - 1" by simp
      with "1.IH" [OF i \<open>take 4 (drop (nat i) endData) \<noteq> eocdSignature\<close>] "1.prems" e
      show ?thesis by simp
    qed
  qed
qed

lemma getRange_tail_window:
  assumes nr: "NewRequest w (URL rzf) = None" and srv: "Do w = rangeServer archive"
    and sz: "size64 rzf = int (length archive)" and ne: "archive \<noteq> []"
    and i64: "int (length archive) < 2 ^ 63"
  shows "getRange w rzf (size64 rzf - searchSize (size64 rzf)) (size64 rzf) sent =
     (Inr (drop (length archive - 65536) archive),
      sent @ [Get (URL rzf) (size64 rzf - min (size64 rzf) 65536) (size64 rzf - 1)])"
proof -
  from ne have pos: "0 < length archive" by simp
  from pos i64 have w: "int64 (int (length archive) - 1) = int (length archive) - 1"
    by (intro int64_id) auto
  show ?thesis
  proof (cases "length archive \<le> 65536")
    case True
    then have ss: "searchSize (int (length archive)) = int (length archive)"
      by (simp add: searchSize_def)
    from True have m: "min (int (length archive)) 65536 = int (length archive)" by simp
    from True pos show ?thesis
      by (simp add: getRange_def nr srv sz ss m w rangeServer_def Let_def)
  next
    case False
    then have ss: "searchSize (int (length archive)) = 65536"
      by (simp add: searchSize_def)
    from False have m: "min (int (length archive)) 65536 = 65536" by simp
    have n: "nat (int (length archive) - 65536) = length archive - 65536" by simp
    from False pos show ?thesis
      by (simp add: getRange_def nr srv sz ss m n w rangeServer_def Let_def)
  qed
qed

lemma readCentralDirectory_window:
  assumes g: "getRange w rzf (size64 rzf - searchSize (size64 rzf)) (size64 rzf) sent =
                (Inr endData, sent1)"
  shows "readCentralDirectory w NewReader rzf sent =
           (if scanEOCD endData (int (length endData) - 22) < 0 then (Inl EOCDNotFound, sent1)
            else case NewReader (ReadAt w rzf) (size64 rzf) sent1 of
                   (Inl err, sent2) \<Rightarrow> (Inl err, sent2)
                 | (Inr fs, sent2) \<Rightarrow> (Inr (rzf\<lparr>files := fs\<rparr>), sent2))"
proof -
  let ?r = "scanEOCD endData (int (length endData) - 22)"
  have "?r = -1 \<or> (0 \<le> ?r \<and> ?r \<le> int (length endData) - 22)"
    by (rule scanEOCD_range)
  then have fits: "\<not> length endData - nat ?r < 22" if "\<not> ?r < 0"
    using that by auto
  show ?thesis
    using fits by (auto simp: readCentralDirectory_def g Let_def)
qed

lemma scanEOCD_none:
  assumes "\<And>j. take 4 (drop j d) \<noteq> eocdSignature"
  shows "scanEOCD d i = -1"
proof -
  have "\<not> 0 \<le> scanEOCD d i"
    using scanEOCD_found [of d i] assms by blast
  with scanEOCD_range [of d i] show ?thesis by auto
qed

lemma no_signature_without_P:
  assumes "0x50 \<notin> set d"
  shows "take 4 (drop j d) \<noteq> eocdSignature"
proof
  assume "take 4 (drop j d) = eocdSignature"
  then have "0x50 \<in> set (take 4 (drop j d))" by (simp add: eocdSignature_def)
  then have "0x50 \<in> set d" by (meson in_set_dropD in_set_takeD)
  with assms show False by simp
qed

lemma longCommentZip_length: "length longCommentZip = 65557"
  by (simp add: longCommentZip_def)

lemma longCommentZip_nonempty: "longCommentZip \<noteq> []"
  by (simp add: longCommentZip_def)

lemma longCommentZip_window: "drop 21 longCommentZip = 0xff # replicate 65535 0"
  by (simp add: longCommentZip_def)

text \<open>
  C1, as the code has it. The scan starts at position \<open>len(endData) - 22\<close> and goes
  down; it stops at the first position where the four bytes of the signature stand: the
  rightmost such position at which the 22 fixed bytes of a record fit. No position to
  the right of the result (and at most \<open>len(endData) - 22\<close>) carries the signature. The
  comment length of the record is not read. When no position carries the signature the
  result is -1 and \<open>readCentralDirectory\<close> fails with "could not find End of Central
  Directory record".
\<close>

theorem scanEOCD_first_match:
  "(scanEOCD endData (int (length endData) - 22) = -1 \<or>
      (0 \<le> scanEOCD endData (int (length endData) - 22) \<and>
       scanEOCD endData (int (length endData) - 22) \<le> int (length endData) - 22 \<and>
       take 4 (drop (nat (scanEOCD endData (int (length endData) - 22))) endData) = eocdSignature)) \<and>
   (scanEOCD endData (int (length endData) - 22) < j \<and> 0 \<le> j \<and> j \<le> int (length endData) - 22 \<longrightarrow>
      take 4 (drop (nat j) endData) \<noteq> eocdSignature) \<and>
   (getRange w rzf (size64 rzf - searchSize (size64 rzf)) (size64 rzf) sent = (Inr endData, sent1) \<and>
    scanEOCD endData (int (length endData) - 22) = -1 \<longrightarrow>
      readCentralDirectory w NewReader rzf sent = (Inl EOCDNotFound, sent1))"
  using scanEOCD_range [of endData "int (length endData) - 22"]
    scanEOCD_found [of endData "int (length endData) - 22"]
    scanEOCD_rightmost [of endData "int (length endData) - 22" j]
  by (auto simp: readCentralDirectory_def)

theorem scanEOCD_first_match_witness:
  "scanEOCD (emptyZip @ [0, 0]) (int (length (emptyZip @ [0, 0])) - 22) = 0 \<and>
   take 4 (drop (nat 1) (emptyZip @ [0, 0])) \<noteq> eocdSignature \<and>
   readCentralDirectory shortWorld noFiles exampleArchive [] =
     (Inl EOCDNotFound, [Get ''http://example.com/archive.zip'' 0 2])"
proof -
  have r: "scanEOCD (emptyZip @ [0, 0]) (int (length (emptyZip @ [0, 0])) - 22) = 0"
    by (simp add: emptyZip_def scanEOCD.simps eocdSignature_def)
  have a: "take 4 (drop (nat 1) (emptyZip @ [0, 0])) \<noteq> eocdSignature"
    using scanEOCD_first_match [of "emptyZip @ [0, 0]" 1] r
    by (simp add: emptyZip_def)
  have g: "getRange shortWorld exampleArchive
             (size64 exampleArchive - searchSize (size64 exampleArchive)) (size64 exampleArchive) [] =
           (Inr [0x50, 0x4b], [Get ''http://example.com/archive.zip'' 0 2])"
    by (simp add: getRange_def shortWorld_def exampleArchive_def searchSize_def int64_def)
  have s: "scanEOCD [0x50, 0x4b] (int (length [0x50, 0x4b :: byte]) - 22) = -1"
    by (simp add: scanEOCD.simps)
  have b: "readCentralDirectory shortWorld noFiles exampleArchive [] =
     (Inl EOCDNotFound, [Get ''http://example.com/archive.zip'' 0 2])"
    using scanEOCD_first_match [of "[0x50, 0x4b]" 0 shortWorld exampleArchive "[]"
        "[Get ''http://example.com/archive.zip'' 0 2]" noFiles] g s
    by simp
  from r a b show ?thesis by simp
qed

text \<open>
  C1 as stated fails on \<open>craftedWindow\<close>. The scan selects position 22, the first match
  from the end. That candidate is not consistent: it declares a comment of 5 bytes and
  no byte of the window remains after it, so it would overrun the window. The candidate
  at position 0 is consistent, and it is the rightmost consistent one.
\<close>

theorem scanEOCD_naive_counterexample:
  "scanEOCD craftedWindow (int (length craftedWindow) - 22) = 22 \<and>
   \<not> spec_consistent craftedWindow 22 \<and>
   spec_commentLength craftedWindow 22 = 5 \<and>
   length craftedWindow - 22 - 22 = 0 \<and>
   spec_consistent craftedWindow 0"
  by (simp add: craftedWindow_def scanEOCD.simps eocdSignature_def spec_consistent_def
      spec_commentLength_def)

text \<open>
  C6 at a failing input. The bound of the tail window in the code is 65536 bytes,
  without the 22 bytes of the record, although the code's own comment has the window
  account for comments. \<open>longCommentZip\<close> has 65557 bytes, fewer than 65536 + 22; its
  record stands at position 0 and is consistent with the bytes that follow it. C6 has
  the window be the whole file and the open succeed. The code asks for the bytes 21 to
  65556, which miss the signature: \<open>readCentralDirectory\<close> fails with "could not find
  End of Central Directory record", whatever \<open>zip.NewReader\<close> would do, and so does
  \<open>NewRemoteZipFile\<close>.
\<close>

theorem long_comment_not_found:
  "readCentralDirectory longCommentWorld NewReader (handle ''http://example.com/long.zip'' 65557) [] =
     (Inl EOCDNotFound, [Get ''http://example.com/long.zip'' 21 65556]) \<and>
   NewRemoteZipFile longCommentWorld NewReader ''http://example.com/long.zip'' [] =
     (Inl (FailedToReadCentralDirectory EOCDNotFound),
      [Head ''http://example.com/long.zip'', Get ''http://example.com/long.zip'' 21 65556]) \<and>
   length longCommentZip = 65557 \<and>
   (65557 :: int) < 65536 + 22 \<and>
   spec_consistent longCommentZip 0"
proof -
  let ?url = "''http://example.com/long.zip''"
  have scan: "scanEOCD (0xff # replicate 65535 0) i = -1" for i
    by (rule scanEOCD_none, rule no_signature_without_P) simp
  have g: "getRange longCommentWorld (handle ?url 65557)
             (size64 (handle ?url 65557) - searchSize (size64 (handle ?url 65557)))
             (size64 (handle ?url 65557)) sent =
           (Inr (0xff # replicate 65535 0), sent @ [Get ?url 21 65556])" for sent
    using getRange_tail_window [of longCommentWorld "handle ?url 65557" longCommentZip sent]
    by (simp add: longCommentWorld_def handle_def longCommentZip_length longCommentZip_window
        longCommentZip_nonempty)
  have r: "readCentralDirectory longCommentWorld NewReader (handle ?url 65557) sent =
     (Inl EOCDNotFound, sent @ [Get ?url 21 65556])" for sent
    by (simp add: readCentralDirectory_window [OF g] scan)
  have n: "NewRemoteZipFile longCommentWorld NewReader ?url [] =
     (Inl (FailedToReadCentralDirectory EOCDNotFound), [Head ?url, Get ?url 21 65556])"
    by (simp add: NewRemoteZipFile_def longCommentWorld_def rangeServer_def Let_def
        longCommentZip_length r [unfolded longCommentWorld_def handle_def])
  have c: "spec_consistent longCommentZip 0"
    by (simp add: spec_consistent_def spec_commentLength_def longCommentZip_length)
       (simp add: longCommentZip_def eocdSignature_def nth_append)
  from r [of "[]"] n c show ?thesis by (simp add: longCommentZip_length)
qed

section \<open>Claims on opening the archive\<close>

text \<open>
  C8, as the code has it. When the answer to the probe (the HEAD request) lacks
  \<open>Accept-Ranges: bytes\<close> or a positive content length, \<open>NewRemoteZipFile\<close> returns
  an error and no handle, and the HEAD is the only request sent: no range is requested.
  With status 200 the error is one of the two the specification calls
  \<open>RangeUnsupported\<close>; with any other status it is "unexpected status code", since the
  status is checked first.
\<close>

theorem probe_without_ranges:
  assumes "NewRequest w url = None" and "Do w (length sent) (Head url) = Inr resp"
    and "AcceptRanges resp \<noteq> ''bytes'' \<or> ContentLength resp \<le> 0"
  shows "\<exists>err. NewRemoteZipFile w NewReader url sent = (Inl err, sent @ [Head url]) \<and>
           (StatusCode resp = 200 \<longrightarrow> spec_RangeUnsupported err) \<and>
           (StatusCode resp \<noteq> 200 \<longrightarrow> err = UnexpectedStatusCode (StatusCode resp))"
  using assms by (auto simp: NewRemoteZipFile_def Let_def spec_RangeUnsupported_def)

theorem probe_without_ranges_witness:
  "NewRemoteZipFile
     (probeWorld \<lparr>StatusCode = 200, AcceptRanges = [], ContentLength = 1000, Body = Inr []\<rparr>)
     noFiles ''http://example.com/a.zip'' [] =
     (Inl NoRangeRequests, [Head ''http://example.com/a.zip'']) \<and>
   NewRemoteZipFile
     (probeWorld \<lparr>StatusCode = 200, AcceptRanges = ''bytes'', ContentLength = - 1, Body = Inr []\<rparr>)
     noFiles ''http://example.com/a.zip'' [] =
     (Inl NoFileSize, [Head ''http://example.com/a.zip''])"
proof -
  have a: "NewRemoteZipFile
     (probeWorld \<lparr>StatusCode = 200, AcceptRanges = [], ContentLength = 1000, Body = Inr []\<rparr>)
     noFiles ''http://example.com/a.zip'' [] =
     (Inl NoRangeRequests, [Head ''http://example.com/a.zip''])"
    using probe_without_ranges [of
      "probeWorld \<lparr>StatusCode = 200, AcceptRanges = [], ContentLength = 1000, Body = Inr []\<rparr>"
      "''http://example.com/a.zip''" "[]"
      "\<lparr>StatusCode = 200, AcceptRanges = [], ContentLength = 1000, Body = Inr []\<rparr>" noFiles]
    by (simp add: probeWorld_def NewRemoteZipFile_def)
  have b: "NewRemoteZipFile
     (probeWorld \<lparr>StatusCode = 200, AcceptRanges = ''bytes'', ContentLength = - 1, Body = Inr []\<rparr>)
     noFiles ''http://example.com/a.zip'' [] =
     (Inl NoFileSize, [Head ''http://example.com/a.zip''])"
    using probe_without_ranges [of
      "probeWorld \<lparr>StatusCode = 200, AcceptRanges = ''bytes'', ContentLength = - 1, Body = Inr []\<rparr>"
      "''http://example.com/a.zip''" "[]"
      "\<lparr>StatusCode = 200, AcceptRanges = ''bytes'', ContentLength = - 1, Body = Inr []\<rparr>" noFiles]
    by (simp add: probeWorld_def NewRemoteZipFile_def)
  from a b show ?thesis by simp
qed

text \<open>
  C8 as stated fails for a probe answered with status 404 and no \<open>Accept-Ranges\<close>
  header: the error is "unexpected status code: 404", not one of the range errors.
\<close>

theorem probe_status_counterexample:
  "NewRemoteZipFile
     (probeWorld \<lparr>StatusCode = 404, AcceptRanges = [], ContentLength = - 1, Body = Inr []\<rparr>)
     noFiles ''http://example.com/a.zip'' [] =
     (Inl (UnexpectedStatusCode 404), [Head ''http://example.com/a.zip'']) \<and>
   \<not> spec_RangeUnsupported (UnexpectedStatusCode 404)"
  by (simp add: probeWorld_def NewRemoteZipFile_def spec_RangeUnsupported_def)

end
